theory Spec2Isabelle
  imports Main "HOL-Library.Word"
begin

unbundle bit_operations_syntax

section \<open>The decoder of i2c-tdk.c\<close>

subsection \<open>Data model\<close>

text \<open>
  The bus phases, \<^verbatim>\<open>enum conditions\<close>, in the order of declaration. The numbering
  is the one the compiler gives them, and it is what the diagnostic prints with
  \<^verbatim>\<open>%d\<close>.
\<close>

datatype conditions = IDLE | READ_ADDR | READ_RW | READ_DATA | READ_ACK | INVALID

fun enum_value :: "conditions \<Rightarrow> int" where
  "enum_value IDLE = 0"
| "enum_value READ_ADDR = 1"
| "enum_value READ_RW = 2"
| "enum_value READ_DATA = 3"
| "enum_value READ_ACK = 4"
| "enum_value INVALID = 5"

text \<open>
  \<^verbatim>\<open>struct decoder\<close>: the phase and four \<^verbatim>\<open>uint8_t\<close> fields, the last seen
  clock and data levels, the bit position and the byte under assembly.
\<close>

record decoder =
  state :: conditions
  scl :: "8 word"
  sda :: "8 word"
  pos :: "8 word"
  byteBuffer :: "8 word"

text \<open>
  Time stamps are \<^verbatim>\<open>long long\<close>; the decoder only passes them on. A sample is what
  one round of the loop of \<^verbatim>\<open>execute\<close> reads: the \<^verbatim>\<open>unsigned int\<close> values of
  the SCL and SDA labels and the time of the row.
\<close>

type_synonym timestamp = "64 word"

type_synonym sample = "32 word \<times> 32 word \<times> timestamp"

text \<open>
  What one call of \<^verbatim>\<open>handleState\<close> sends out, in the order of the calls.
  \<^verbatim>\<open>eventDs.replaceNext(time)\<close> followed by \<^verbatim>\<open>i2cEventsLE.replaceNext(label)\<close>
  writes one row of the event data set and is one \<open>Event\<close>;
  \<^verbatim>\<open>dataDs.replaceNext(time)\<close> followed by \<^verbatim>\<open>i2cLE.replaceNext(value)\<close> writes one
  row of the data set and is one \<open>DataByte\<close>. \<open>Print\<close> and \<open>Printf\<close> are the two calls
  on the \<^verbatim>\<open>io\<close> object, the second with its format and its integer arguments.
\<close>

datatype emission =
    Event timestamp string
  | DataByte timestamp "32 word"
  | Print string
  | Printf string "int list"

subsection \<open>Creation\<close>

text \<open>
  \<^verbatim>\<open>newDecoder\<close> allocates with \<^verbatim>\<open>malloc\<close> and assigns \<^verbatim>\<open>state\<close>, \<^verbatim>\<open>scl\<close> and
  \<^verbatim>\<open>sda\<close> only. \<^verbatim>\<open>pos\<close> and \<^verbatim>\<open>byteBuffer\<close> keep whatever the allocated block
  holds, so the model takes those two bytes as parameters.
\<close>

definition newDecoder :: "8 word \<Rightarrow> 8 word \<Rightarrow> decoder" where
  "newDecoder pos0 byteBuffer0 =
     \<lparr>state = IDLE, scl = 1, sda = 1, pos = pos0, byteBuffer = byteBuffer0\<rparr>"

subsection \<open>One sample\<close>

text \<open>
  The statement \<^verbatim>\<open>d->byteBuffer |= sda << (hi - d->pos)\<close>, with \<open>hi\<close> the constant
  6 or 7. The shift is done on \<^verbatim>\<open>unsigned int\<close>, the count \<^verbatim>\<open>hi - d->pos\<close> is an
  \<^verbatim>\<open>int\<close>, and the result of the bitwise or is cut down to eight bits by the
  assignment. A negative count is undefined behaviour: the model answers \<open>None\<close>.
\<close>

definition orShifted :: "nat \<Rightarrow> 8 word \<Rightarrow> 8 word \<Rightarrow> 32 word \<Rightarrow> 8 word option" where
  "orShifted hi p buf sdaValue =
     (if hi < unat p then None
      else Some (ucast ((ucast buf :: 32 word) OR push_bit (hi - unat p) sdaValue)))"

text \<open>
  \<^verbatim>\<open>handleState\<close>. The parameters \<^verbatim>\<open>scl\<close> and \<^verbatim>\<open>sda\<close> are called \<open>sclValue\<close> and
  \<open>sdaValue\<close> here, as at the call in \<^verbatim>\<open>execute\<close>, since \<open>scl\<close> and \<open>sda\<close> name the
  fields. The first test returns at once; every other branch falls through to the two
  assignments at the end of the function, which store the new levels, cut down to
  eight bits.
\<close>

definition handleState ::
  "decoder \<Rightarrow> 32 word \<Rightarrow> 32 word \<Rightarrow> timestamp \<Rightarrow> (decoder \<times> emission list) option" where
  "handleState d sclValue sdaValue time =
     (if ucast (scl d) = sclValue \<and> ucast (sda d) = sdaValue then Some (d, [])
      else
        map_option (\<lambda>(d1, out). (d1\<lparr>scl := ucast sclValue, sda := ucast sdaValue\<rparr>, out))
         (if scl d = 1 \<and> sclValue = 0 then Some (d, [])
          else if sclValue = 0 then Some (d, [])
          else if scl d = 1 \<and> sda d = 1 \<and> sclValue = 1 \<and> sdaValue = 0 then
            Some (d\<lparr>state := READ_ADDR, pos := 0, byteBuffer := 0\<rparr>,
                  [Event time (if state d = IDLE then ''START'' else ''START(odd)'')])
          else if scl d = 1 \<and> sda d = 0 \<and> sclValue = 1 \<and> sdaValue = 1 then
            Some (d\<lparr>state := IDLE\<rparr>, [Event time ''STOP''])
          else if state d = READ_ADDR \<and> sclValue = 1 then
            (case orShifted 6 (pos d) (byteBuffer d) sdaValue of
               None \<Rightarrow> None
             | Some buf \<Rightarrow>
                 (if pos d + 1 = 7 then
                    Some (d\<lparr>state := READ_RW, pos := 0, byteBuffer := 0\<rparr>,
                          [Event time ''ADDRESS'', DataByte time (ucast buf)])
                  else Some (d\<lparr>byteBuffer := buf, pos := pos d + 1\<rparr>, [])))
          else if state d = READ_RW \<and> sclValue = 1 then
            Some (d\<lparr>state := READ_ACK\<rparr>,
                  [Event time (if sdaValue = 0 then ''WRITE'' else ''READ'')])
          else if state d = READ_ACK \<and> sclValue = 1 then
            Some (d\<lparr>state := READ_DATA, pos := 0, byteBuffer := 0\<rparr>,
                  [Event time (if sdaValue = 0 then ''ACK'' else ''NACK'')])
          else if state d = READ_DATA \<and> sclValue = 1 then
            (case orShifted 7 (pos d) (byteBuffer d) sdaValue of
               None \<Rightarrow> None
             | Some buf \<Rightarrow>
                 (if pos d + 1 = 8 then
                    Some (d\<lparr>state := READ_ACK, pos := 0, byteBuffer := 0\<rparr>,
                          [DataByte time (ucast buf), Event time ''DATA''])
                  else Some (d\<lparr>byteBuffer := buf, pos := pos d + 1\<rparr>, [])))
          else
            Some (d, [Print ''There's a state here we haven't implemented yet'',
                      Printf ''  state=%d, lastSCL=%d, lastSDA=%d, scl=%d, sda=%d''
                        [enum_value (state d), uint (scl d), uint (sda d),
                         uint (scl d), uint (sda d)]])))"

subsection \<open>The sample loop\<close>

text \<open>
  The loop of \<^verbatim>\<open>execute\<close> that reads the rows of the acquisition one after the
  other and hands each to \<^verbatim>\<open>handleState\<close>, on the one decoder; the emissions of the
  calls follow one another.
\<close>

fun decodeLoop :: "decoder \<Rightarrow> sample list \<Rightarrow> (decoder \<times> emission list) option" where
  "decodeLoop d [] = Some (d, [])"
| "decodeLoop d ((sclValue, sdaValue, time) # rest) =
     (case handleState d sclValue sdaValue time of
        None \<Rightarrow> None
      | Some (d1, out1) \<Rightarrow>
          (case decodeLoop d1 rest of
             None \<Rightarrow> None
           | Some (d2, out2) \<Rightarrow> Some (d2, out1 @ out2)))"

subsection \<open>Predicates of the statements\<close>

text \<open>
  A bit-sample edge: a sample that passes the first five tests of \<^verbatim>\<open>handleState\<close>,
  being neither a repetition of the stored levels, nor a sample with the clock at 0,
  nor a START, nor a STOP condition. It is what reaches the tests on the phase.
\<close>

definition bitSampleEdge :: "decoder \<Rightarrow> 32 word \<Rightarrow> 32 word \<Rightarrow> bool" where
  "bitSampleEdge d sclValue sdaValue =
     (\<not> (ucast (scl d) = sclValue \<and> ucast (sda d) = sdaValue)
      \<and> sclValue \<noteq> 0
      \<and> \<not> (scl d = 1 \<and> sda d = 1 \<and> sclValue = 1 \<and> sdaValue = 0)
      \<and> \<not> (scl d = 1 \<and> sda d = 0 \<and> sclValue = 1 \<and> sdaValue = 1))"

text \<open>
  What holds of the two counters in each phase, once a START has been seen: the bit
  position is at most 6 while the address is read and at most 7 while a data byte is
  read, and both fields are zero while the direction bit or an acknowledge bit is
  awaited. No assignment of the program ever stores \<^verbatim>\<open>INVALID\<close>.
\<close>

definition fieldInv :: "decoder \<Rightarrow> bool" where
  "fieldInv d =
     (case state d of
        IDLE \<Rightarrow> True
      | READ_ADDR \<Rightarrow> unat (pos d) \<le> 6
      | READ_RW \<Rightarrow> pos d = 0 \<and> byteBuffer d = 0
      | READ_DATA \<Rightarrow> unat (pos d) \<le> 7
      | READ_ACK \<Rightarrow> pos d = 0 \<and> byteBuffer d = 0
      | INVALID \<Rightarrow> False)"

text \<open>The two labels of a START condition.\<close>

fun isStart :: "emission \<Rightarrow> bool" where
  "isStart (Event t l) = (l = ''START'' \<or> l = ''START(odd)'')"
| "isStart (DataByte t v) = False"
| "isStart (Print m) = False"
| "isStart (Printf f args) = False"

text \<open>
  The emissions that belong to a transaction: a byte on the data channel, and the
  events of the address, the direction, the acknowledge bit and the data byte.
\<close>

fun needsStart :: "emission \<Rightarrow> bool" where
  "needsStart (Event t l) =
     (l = ''ADDRESS'' \<or> l = ''WRITE'' \<or> l = ''READ'' \<or> l = ''ACK'' \<or> l = ''NACK''
      \<or> l = ''DATA'')"
| "needsStart (DataByte t v) = True"
| "needsStart (Print m) = False"
| "needsStart (Printf f args) = False"

text \<open>
  The emissions that belong to no transaction: a STOP event and the two lines of the
  diagnostic.
\<close>

fun outsideTransaction :: "emission \<Rightarrow> bool" where
  "outsideTransaction (Event t l) = (l = ''STOP'')"
| "outsideTransaction (DataByte t v) = False"
| "outsideTransaction (Print m) = True"
| "outsideTransaction (Printf f args) = True"

text \<open>
  A trace in which everything before the first START event belongs to no transaction.
\<close>

fun startGuarded :: "emission list \<Rightarrow> bool" where
  "startGuarded [] = True"
| "startGuarded (e # es) = (isStart e \<or> outsideTransaction e \<and> startGuarded es)"

text \<open>
  Whether a sample sequence holds a START condition, the test of the fourth branch of
  \<^verbatim>\<open>handleState\<close>: the levels before a sample are clock 1 and data 1, and the
  sample has clock 1 and data 0. The first two arguments are the levels before the
  first sample; the levels before any other sample are those of the sample in front
  of it, as the decoder stores them.
\<close>

fun hasStartCondition :: "8 word \<Rightarrow> 8 word \<Rightarrow> sample list \<Rightarrow> bool" where
  "hasStartCondition lastScl lastSda [] = False"
| "hasStartCondition lastScl lastSda ((sclValue, sdaValue, time) # rest) =
     (lastScl = 1 \<and> lastSda = 1 \<and> sclValue = 1 \<and> sdaValue = 0
      \<or> hasStartCondition (ucast sclValue) (ucast sdaValue) rest)"

section \<open>Lemmas\<close>

subsection \<open>Words\<close>

lemma ucast_8_32_8: "ucast (ucast (w :: 8 word) :: 32 word) = w"
  by (simp add: ucast_up_ucast_id is_up)

lemma ucast_8_32_eq_0: "(ucast (w :: 8 word) = (0 :: 32 word)) = (w = 0)"
  using ucast_8_32_8 [of w] by auto

lemma ucast_8_32_eq_1: "(ucast (w :: 8 word) = (1 :: 32 word)) = (w = 1)"
  using ucast_8_32_8 [of w] by auto

lemma unat_pos_succ: "unat (p :: 8 word) \<le> 7 \<Longrightarrow> unat (p + 1) = unat p + 1"
  by (simp add: unat_word_ariths)

lemma pos_succ_eq_7: "unat (p :: 8 word) \<le> 7 \<Longrightarrow> (p + 1 = 7) = (unat p = 6)"
  by (simp add: word_unat_eq_iff unat_pos_succ)

lemma pos_succ_eq_8: "unat (p :: 8 word) \<le> 7 \<Longrightarrow> (p + 1 = 8) = (unat p = 7)"
  by (simp add: word_unat_eq_iff unat_pos_succ)

subsection \<open>One sample, branch by branch\<close>

lemma handleState_nochange:
  "ucast (scl d) = sclValue \<Longrightarrow> ucast (sda d) = sdaValue \<Longrightarrow>
     handleState d sclValue sdaValue time = Some (d, [])"
  by (simp add: handleState_def)

lemma handleState_low:
  "handleState d 0 sdaValue time = Some (d\<lparr>scl := 0, sda := ucast sdaValue\<rparr>, [])"
  by (auto simp: handleState_def ucast_8_32_8 ucast_8_32_eq_0)

lemma handleState_start:
  "scl d = 1 \<Longrightarrow> sda d = 1 \<Longrightarrow>
     handleState d 1 0 time =
       Some (d\<lparr>state := READ_ADDR, pos := 0, byteBuffer := 0, scl := 1, sda := 0\<rparr>,
             [Event time (if state d = IDLE then ''START'' else ''START(odd)'')])"
  by (simp add: handleState_def)

lemma handleState_stop:
  "scl d = 1 \<Longrightarrow> sda d = 0 \<Longrightarrow>
     handleState d 1 1 time =
       Some (d\<lparr>state := IDLE, scl := 1, sda := 1\<rparr>, [Event time ''STOP''])"
  by (simp add: handleState_def)

lemma handleState_edge_addr:
  "bitSampleEdge d 1 sdaValue \<Longrightarrow> state d = READ_ADDR \<Longrightarrow>
     handleState d 1 sdaValue time =
       (case orShifted 6 (pos d) (byteBuffer d) sdaValue of
          None \<Rightarrow> None
        | Some buf \<Rightarrow>
            (if pos d + 1 = 7 then
               Some (d\<lparr>state := READ_RW, pos := 0, byteBuffer := 0, scl := 1,
                       sda := ucast sdaValue\<rparr>,
                     [Event time ''ADDRESS'', DataByte time (ucast buf)])
             else Some (d\<lparr>byteBuffer := buf, pos := pos d + 1, scl := 1,
                          sda := ucast sdaValue\<rparr>, [])))"
  by (simp add: handleState_def bitSampleEdge_def split: option.split cong: conj_cong)

lemma handleState_edge_rw:
  "bitSampleEdge d 1 sdaValue \<Longrightarrow> state d = READ_RW \<Longrightarrow>
     handleState d 1 sdaValue time =
       Some (d\<lparr>state := READ_ACK, scl := 1, sda := ucast sdaValue\<rparr>,
             [Event time (if sdaValue = 0 then ''WRITE'' else ''READ'')])"
  by (simp add: handleState_def bitSampleEdge_def cong: conj_cong)

lemma handleState_edge_ack:
  "bitSampleEdge d 1 sdaValue \<Longrightarrow> state d = READ_ACK \<Longrightarrow>
     handleState d 1 sdaValue time =
       Some (d\<lparr>state := READ_DATA, pos := 0, byteBuffer := 0, scl := 1,
               sda := ucast sdaValue\<rparr>,
             [Event time (if sdaValue = 0 then ''ACK'' else ''NACK'')])"
  by (simp add: handleState_def bitSampleEdge_def cong: conj_cong)

lemma handleState_edge_data:
  "bitSampleEdge d 1 sdaValue \<Longrightarrow> state d = READ_DATA \<Longrightarrow>
     handleState d 1 sdaValue time =
       (case orShifted 7 (pos d) (byteBuffer d) sdaValue of
          None \<Rightarrow> None
        | Some buf \<Rightarrow>
            (if pos d + 1 = 8 then
               Some (d\<lparr>state := READ_ACK, pos := 0, byteBuffer := 0, scl := 1,
                       sda := ucast sdaValue\<rparr>,
                     [DataByte time (ucast buf), Event time ''DATA''])
             else Some (d\<lparr>byteBuffer := buf, pos := pos d + 1, scl := 1,
                          sda := ucast sdaValue\<rparr>, [])))"
  by (simp add: handleState_def bitSampleEdge_def split: option.split cong: conj_cong)

lemma handleState_edge_other:
  assumes "bitSampleEdge d sclValue sdaValue"
    and "sclValue \<noteq> 1 \<or> state d = IDLE \<or> state d = INVALID"
  shows "handleState d sclValue sdaValue time =
       Some (d\<lparr>scl := ucast sclValue, sda := ucast sdaValue\<rparr>,
             [Print ''There's a state here we haven't implemented yet'',
              Printf ''  state=%d, lastSCL=%d, lastSDA=%d, scl=%d, sda=%d''
                [enum_value (state d), uint (scl d), uint (sda d), uint (scl d),
                 uint (sda d)]])"
  using assms(2) assms(1)
  by (elim disjE) (simp_all add: handleState_def bitSampleEdge_def cong: conj_cong)

lemma sample_cases:
  obtains
    (nochange) "ucast (scl d) = sclValue" and "ucast (sda d) = sdaValue"
  | (low) "sclValue = 0"
  | (start) "scl d = 1" and "sda d = 1" and "sclValue = 1" and "sdaValue = 0"
  | (stop) "scl d = 1" and "sda d = 0" and "sclValue = 1" and "sdaValue = 1"
  | (addr) "bitSampleEdge d sclValue sdaValue" and "sclValue = 1" and "state d = READ_ADDR"
  | (rw) "bitSampleEdge d sclValue sdaValue" and "sclValue = 1" and "state d = READ_RW"
  | (ack) "bitSampleEdge d sclValue sdaValue" and "sclValue = 1" and "state d = READ_ACK"
  | (data) "bitSampleEdge d sclValue sdaValue" and "sclValue = 1" and "state d = READ_DATA"
  | (other) "bitSampleEdge d sclValue sdaValue"
      and "sclValue \<noteq> 1 \<or> state d = IDLE \<or> state d = INVALID"
proof -
  consider "ucast (scl d) = sclValue \<and> ucast (sda d) = sdaValue" | "sclValue = 0"
    | "scl d = 1 \<and> sda d = 1 \<and> sclValue = 1 \<and> sdaValue = 0"
    | "scl d = 1 \<and> sda d = 0 \<and> sclValue = 1 \<and> sdaValue = 1"
    | "bitSampleEdge d sclValue sdaValue"
    unfolding bitSampleEdge_def by blast
  then show thesis
  proof cases
    case 1
    then show thesis using nochange by simp
  next
    case 2
    then show thesis using low by simp
  next
    case 3
    then show thesis using start by simp
  next
    case 4
    then show thesis using stop by simp
  next
    case 5
    show thesis
    proof (cases "sclValue = 1")
      case True
      with 5 show thesis using addr rw ack data other by (cases "state d") simp_all
    next
      case False
      with 5 show thesis using other by simp
    qed
  qed
qed

subsection \<open>Properties of every call\<close>

lemma handleState_latches:
  assumes "handleState d sclValue sdaValue time = Some (d', out)"
  shows "scl d' = ucast sclValue \<and> sda d' = ucast sdaValue"
proof (cases rule: sample_cases [where d = d and sclValue = sclValue and sdaValue = sdaValue])
  case nochange
  with assms show ?thesis by (auto simp: handleState_nochange ucast_8_32_8)
next
  case low
  with assms show ?thesis by (auto simp: handleState_low)
next
  case start
  with assms show ?thesis by (auto simp: handleState_start)
next
  case stop
  with assms show ?thesis by (auto simp: handleState_stop)
next
  case addr
  with assms show ?thesis
    by (auto simp: handleState_edge_addr split: option.splits if_splits)
next
  case rw
  with assms show ?thesis by (auto simp: handleState_edge_rw)
next
  case ack
  with assms show ?thesis by (auto simp: handleState_edge_ack)
next
  case data
  with assms show ?thesis
    by (auto simp: handleState_edge_data split: option.splits if_splits)
next
  case other
  with assms show ?thesis by (auto simp: handleState_edge_other)
qed

lemma fieldInv_levels: "fieldInv (d\<lparr>scl := x, sda := y\<rparr>) = fieldInv d"
  by (simp add: fieldInv_def split: conditions.split)

lemma handleState_fieldInv:
  assumes "fieldInv d"
  shows "\<exists>d' out. handleState d sclValue sdaValue time = Some (d', out) \<and> fieldInv d'"
proof (cases rule: sample_cases [where d = d and sclValue = sclValue and sdaValue = sdaValue])
  case nochange
  with assms show ?thesis by (simp add: handleState_nochange)
next
  case low
  with assms show ?thesis by (simp add: handleState_low fieldInv_levels)
next
  case start
  with assms show ?thesis by (simp add: handleState_start fieldInv_def)
next
  case stop
  with assms show ?thesis by (simp add: handleState_stop fieldInv_def)
next
  case addr
  with assms show ?thesis
    by (simp add: handleState_edge_addr fieldInv_def orShifted_def pos_succ_eq_7
        unat_pos_succ)
next
  case rw
  with assms show ?thesis by (simp add: handleState_edge_rw fieldInv_def)
next
  case ack
  with assms show ?thesis by (simp add: handleState_edge_ack fieldInv_def)
next
  case data
  with assms show ?thesis
    by (simp add: handleState_edge_data fieldInv_def orShifted_def pos_succ_eq_8
        unat_pos_succ)
next
  case other
  with assms show ?thesis by (simp add: handleState_edge_other fieldInv_levels)
qed

lemma decodeLoop_fieldInv:
  "fieldInv d \<Longrightarrow> \<exists>d' out. decodeLoop d samples = Some (d', out) \<and> fieldInv d'"
proof (induction samples arbitrary: d)
  case Nil
  then show ?case by simp
next
  case (Cons s samples)
  obtain sclValue sdaValue time where s: "s = (sclValue, sdaValue, time)"
    by (cases s)
  from Cons.prems obtain d1 out1
    where step: "handleState d sclValue sdaValue time = Some (d1, out1)" and inv1: "fieldInv d1"
    using handleState_fieldInv by blast
  from Cons.IH [OF inv1] obtain d2 out2
    where rest: "decodeLoop d1 samples = Some (d2, out2)" and inv2: "fieldInv d2"
    by blast
  show ?case using s step rest inv2 by simp
qed

lemma newDecoder_fieldInv: "fieldInv (newDecoder pos0 byteBuffer0)"
  by (simp add: fieldInv_def newDecoder_def)

lemma reachable_fieldInv:
  assumes "decodeLoop (newDecoder pos0 byteBuffer0) samples = Some (d, out)"
  shows "fieldInv d"
  using decodeLoop_fieldInv [OF newDecoder_fieldInv, of pos0 byteBuffer0 samples] assms
  by auto

subsection \<open>Before the first START\<close>

lemma handleState_idle:
  assumes "state d = IDLE" and "handleState d sclValue sdaValue time = Some (d', out)"
  shows "state d' = IDLE \<and> pos d' = pos d \<and> byteBuffer d' = byteBuffer d
           \<and> list_all outsideTransaction out
         \<or> scl d = 1 \<and> sda d = 1 \<and> sclValue = 1 \<and> sdaValue = 0
           \<and> fieldInv d' \<and> pos d' = 0 \<and> out = [Event time ''START'']"
proof (cases rule: sample_cases [where d = d and sclValue = sclValue and sdaValue = sdaValue])
  case nochange
  with assms show ?thesis by (auto simp: handleState_nochange)
next
  case low
  with assms show ?thesis by (auto simp: handleState_low)
next
  case start
  with assms show ?thesis by (auto simp: handleState_start fieldInv_def)
next
  case stop
  with assms show ?thesis by (auto simp: handleState_stop)
next
  case other
  with assms show ?thesis by (auto simp: handleState_edge_other)
qed (use assms in simp_all)

lemma outsideTransaction_not_start: "outsideTransaction e \<Longrightarrow> \<not> isStart e"
  by (cases e) auto

lemma startGuarded_append:
  "list_all outsideTransaction xs \<Longrightarrow> startGuarded ys \<Longrightarrow> startGuarded (xs @ ys)"
  by (induction xs) auto

lemma decodeLoop_idle_startGuarded:
  "state d = IDLE \<Longrightarrow> decodeLoop d samples = Some (d', out) \<Longrightarrow> startGuarded out"
proof (induction samples arbitrary: d out)
  case Nil
  then show ?case by simp
next
  case (Cons s samples)
  obtain sclValue sdaValue time where s: "s = (sclValue, sdaValue, time)"
    by (cases s)
  from Cons.prems(2) s obtain d1 out1 out2
    where step: "handleState d sclValue sdaValue time = Some (d1, out1)"
      and rest: "decodeLoop d1 samples = Some (d', out2)"
      and out: "out = out1 @ out2"
    by (auto split: option.splits)
  from handleState_idle [OF Cons.prems(1) step] show ?case
  proof
    assume "state d1 = IDLE \<and> pos d1 = pos d \<and> byteBuffer d1 = byteBuffer d
      \<and> list_all outsideTransaction out1"
    with Cons.IH [OF _ rest] out show ?case by (simp add: startGuarded_append)
  next
    assume "scl d = 1 \<and> sda d = 1 \<and> sclValue = 1 \<and> sdaValue = 0
      \<and> fieldInv d1 \<and> pos d1 = 0 \<and> out1 = [Event time ''START'']"
    with out show ?case by simp
  qed
qed

lemma needsStart_not_outside: "needsStart e \<Longrightarrow> \<not> isStart e \<and> \<not> outsideTransaction e"
  by (cases e) auto

lemma startGuarded_preceded:
  "startGuarded out \<Longrightarrow> out = pre @ e # post \<Longrightarrow> needsStart e \<Longrightarrow> \<exists>s\<in>set pre. isStart s"
proof (induction out arbitrary: pre)
  case Nil
  then show ?case by simp
next
  case (Cons x xs)
  show ?case
  proof (cases pre)
    case Nil
    with Cons.prems show ?thesis using needsStart_not_outside by auto
  next
    case (Cons y pre')
    with Cons.prems Cons.IH [of pre'] show ?thesis by auto
  qed
qed

lemma decodeLoop_without_start:
  "state d = IDLE \<Longrightarrow> \<not> hasStartCondition (scl d) (sda d) samples \<Longrightarrow>
     decodeLoop d samples = Some (d', out) \<Longrightarrow> list_all outsideTransaction out"
proof (induction samples arbitrary: d out)
  case Nil
  then show ?case by simp
next
  case (Cons s samples)
  obtain sclValue sdaValue time where s: "s = (sclValue, sdaValue, time)"
    by (cases s)
  from Cons.prems(3) s obtain d1 out1 out2
    where step: "handleState d sclValue sdaValue time = Some (d1, out1)"
      and rest: "decodeLoop d1 samples = Some (d', out2)"
      and out: "out = out1 @ out2"
    by (auto split: option.splits)
  from Cons.prems(2) s
  have nostart: "\<not> (scl d = 1 \<and> sda d = 1 \<and> sclValue = 1 \<and> sdaValue = 0)"
    and later: "\<not> hasStartCondition (ucast sclValue) (ucast sdaValue) samples"
    by auto
  from handleState_idle [OF Cons.prems(1) step] nostart
  have idle1: "state d1 = IDLE" and out1: "list_all outsideTransaction out1"
    by auto
  from handleState_latches [OF step] later
  have "\<not> hasStartCondition (scl d1) (sda d1) samples"
    by simp
  from Cons.IH [OF idle1 this rest] out1 out show ?case
    by simp
qed

subsection \<open>The bit position\<close>

lemma handleState_pos_bound:
  assumes "fieldInv d" and "unat (pos d) \<le> 7"
    and "handleState d sclValue sdaValue time = Some (d', out)"
  shows "unat (pos d') \<le> 7"
proof (cases rule: sample_cases [where d = d and sclValue = sclValue and sdaValue = sdaValue])
  case nochange
  with assms show ?thesis by (auto simp: handleState_nochange)
next
  case low
  with assms show ?thesis by (auto simp: handleState_low)
next
  case start
  with assms show ?thesis by (auto simp: handleState_start)
next
  case stop
  with assms show ?thesis by (auto simp: handleState_stop)
next
  case addr
  with assms show ?thesis
    by (auto simp: handleState_edge_addr fieldInv_def orShifted_def pos_succ_eq_7
        unat_pos_succ split: if_splits)
next
  case rw
  with assms show ?thesis by (auto simp: handleState_edge_rw)
next
  case ack
  with assms show ?thesis by (auto simp: handleState_edge_ack)
next
  case data
  with assms show ?thesis
    by (auto simp: handleState_edge_data fieldInv_def orShifted_def pos_succ_eq_8
        unat_pos_succ split: if_splits)
next
  case other
  with assms show ?thesis by (auto simp: handleState_edge_other)
qed

lemma decodeLoop_pos_bound:
  "fieldInv d \<Longrightarrow> unat (pos d) \<le> 7 \<Longrightarrow> decodeLoop d samples = Some (d', out) \<Longrightarrow>
     unat (pos d') \<le> 7"
proof (induction samples arbitrary: d out)
  case Nil
  then show ?case by simp
next
  case (Cons s samples)
  obtain sclValue sdaValue time where s: "s = (sclValue, sdaValue, time)"
    by (cases s)
  from Cons.prems(3) s obtain d1 out1 out2
    where step: "handleState d sclValue sdaValue time = Some (d1, out1)"
      and rest: "decodeLoop d1 samples = Some (d', out2)"
    by (auto split: option.splits)
  from handleState_fieldInv [OF Cons.prems(1), of sclValue sdaValue time] step
  have inv1: "fieldInv d1" by auto
  from handleState_pos_bound [OF Cons.prems(1,2) step] have "unat (pos d1) \<le> 7" .
  with Cons.IH [OF inv1 _ rest] show ?case by simp
qed

lemma decodeLoop_idle_pos:
  "state d = IDLE \<Longrightarrow> decodeLoop d samples = Some (d', out) \<Longrightarrow>
     state d' = IDLE \<and> pos d' = pos d \<and> (\<forall>e\<in>set out. \<not> isStart e) \<or> unat (pos d') \<le> 7"
proof (induction samples arbitrary: d out)
  case Nil
  then show ?case by simp
next
  case (Cons s samples)
  obtain sclValue sdaValue time where s: "s = (sclValue, sdaValue, time)"
    by (cases s)
  from Cons.prems(2) s obtain d1 out1 out2
    where step: "handleState d sclValue sdaValue time = Some (d1, out1)"
      and rest: "decodeLoop d1 samples = Some (d', out2)"
      and out: "out = out1 @ out2"
    by (auto split: option.splits)
  from handleState_idle [OF Cons.prems(1) step] show ?case
  proof
    assume a: "state d1 = IDLE \<and> pos d1 = pos d \<and> byteBuffer d1 = byteBuffer d
      \<and> list_all outsideTransaction out1"
    then have "\<forall>e\<in>set out1. \<not> isStart e"
      by (auto simp: list_all_iff dest: outsideTransaction_not_start)
    with Cons.IH [OF _ rest] a out show ?case by auto
  next
    assume "scl d = 1 \<and> sda d = 1 \<and> sclValue = 1 \<and> sdaValue = 0
      \<and> fieldInv d1 \<and> pos d1 = 0 \<and> out1 = [Event time ''START'']"
    with decodeLoop_pos_bound [OF _ _ rest] show ?case by simp
  qed
qed

lemma handleState_entry:
  assumes "fieldInv d" and "handleState d sclValue sdaValue time = Some (d', out)"
  shows "(state d = READ_ACK \<and> state d' = READ_DATA \<longrightarrow> pos d' = 0 \<and> byteBuffer d' = 0)
       \<and> (state d = READ_RW \<and> state d' = READ_ACK \<longrightarrow> pos d' = 0 \<and> byteBuffer d' = 0)"
proof (cases rule: sample_cases [where d = d and sclValue = sclValue and sdaValue = sdaValue])
  case nochange
  with assms show ?thesis by (auto simp: handleState_nochange)
next
  case low
  with assms show ?thesis by (auto simp: handleState_low)
next
  case start
  with assms show ?thesis by (auto simp: handleState_start)
next
  case stop
  with assms show ?thesis by (auto simp: handleState_stop)
next
  case addr
  with assms show ?thesis
    by (auto simp: handleState_edge_addr split: option.splits if_splits)
next
  case rw
  with assms show ?thesis by (auto simp: handleState_edge_rw fieldInv_def)
next
  case ack
  with assms show ?thesis by (auto simp: handleState_edge_ack)
next
  case data
  with assms show ?thesis
    by (auto simp: handleState_edge_data split: option.splits if_splits)
next
  case other
  with assms show ?thesis by (auto simp: handleState_edge_other)
qed

subsection \<open>Samples with the clock held high\<close>

text \<open>
  With binary levels a bit can only be sampled on a rising clock: while the stored
  clock level is 1, a sample with the clock at 1 either repeats the stored levels or
  moves the data line, and that is a START or a STOP condition. So every bit of the
  runs below is one clock pulse, a sample with the clock at 0 followed by a sample
  with the clock at 1.
\<close>

lemma data_change_with_clock_high:
  "decodeLoop (newDecoder pos0 byteBuffer0) [(1, 0, 1), (1, 1, 2), (1, 0, 3)] =
     Some (\<lparr>state = READ_ADDR, scl = 1, sda = 0, pos = 0, byteBuffer = 0\<rparr>,
           [Event 1 ''START'', Event 2 ''STOP'', Event 3 ''START''])"
  by (simp add: newDecoder_def handleState_def)

section \<open>The claims\<close>

text \<open>
  Claim C1. The write transaction of the round trip scenario, from creation with the
  bus idle: a START condition, the address bits 1,0,1,0,0,0,0, the direction bit 0,
  the acknowledge bit 0, eight data bits 1, the acknowledge bit 1 and a STOP condition,
  every bit as one clock pulse. The decoder emits START, ADDRESS, WRITE, ACK, DATA,
  NACK, STOP in that order, the byte 0x50 on the data channel with the time stamp of
  ADDRESS and the byte 0xFF with the time stamp of DATA, and it ends in \<open>IDLE\<close>,
  whatever \<^verbatim>\<open>pos\<close> and \<^verbatim>\<open>byteBuffer\<close> held at creation. The rising clock
  at time 40, which brings the bus to clock 1, data 0 before the STOP, is sampled as a
  first data bit and emits nothing.
\<close>

theorem write_transaction_scenario:
  "decodeLoop (newDecoder pos0 byteBuffer0)
       [(1, 0, 1),
        (0, 1, 2), (1, 1, 3), (0, 0, 4), (1, 0, 5), (0, 1, 6), (1, 1, 7), (0, 0, 8),
        (1, 0, 9), (0, 0, 10), (1, 0, 11), (0, 0, 12), (1, 0, 13), (0, 0, 14), (1, 0, 15),
        (0, 0, 16), (1, 0, 17),
        (0, 0, 18), (1, 0, 19),
        (0, 1, 20), (1, 1, 21), (0, 1, 22), (1, 1, 23), (0, 1, 24), (1, 1, 25), (0, 1, 26),
        (1, 1, 27), (0, 1, 28), (1, 1, 29), (0, 1, 30), (1, 1, 31), (0, 1, 32), (1, 1, 33),
        (0, 1, 34), (1, 1, 35),
        (0, 1, 36), (1, 1, 37),
        (0, 1, 38), (0, 0, 39), (1, 0, 40), (1, 1, 41)] =
     Some (\<lparr>state = IDLE, scl = 1, sda = 1, pos = 1, byteBuffer = 0\<rparr>,
           [Event 1 ''START'', Event 15 ''ADDRESS'', DataByte 15 0x50, Event 17 ''WRITE'',
            Event 19 ''ACK'', DataByte 35 0xFF, Event 35 ''DATA'', Event 37 ''NACK'',
            Event 41 ''STOP''])"
  by (simp add: newDecoder_def handleState_low) (simp add: handleState_def orShifted_def)

text \<open>
  Claim C2. Bit order. From \<open>READ_ADDR\<close> with \<^verbatim>\<open>pos\<close> and \<^verbatim>\<open>byteBuffer\<close>
  at 0, seven clock pulses carrying the bits \<open>b6\<close>, ..., \<open>b0\<close> emit ADDRESS together
  with the byte \<open>b6 * 64 + b5 * 32 + b4 * 16 + b3 * 8 + b2 * 4 + b1 * 2 + b0\<close>, which
  is at most 127; from \<open>READ_DATA\<close>, eight clock pulses carrying \<open>b7\<close>, ..., \<open>b0\<close>
  emit the byte with \<open>b7\<close> at weight 128 together with DATA. The level \<open>x\<close> of
  the data line while the clock is low, and all the time stamps, are arbitrary.
\<close>

theorem msb_first_assembly:
  assumes "b7 \<in> {0, 1}" and "b6 \<in> {0, 1}" and "b5 \<in> {0, 1}" and "b4 \<in> {0, 1}"
    and "b3 \<in> {0, 1}" and "b2 \<in> {0, 1}" and "b1 \<in> {0, 1}" and "b0 \<in> {0, 1}"
  shows "(state d = READ_ADDR \<and> pos d = 0 \<and> byteBuffer d = 0 \<longrightarrow>
      decodeLoop d
        [(0, x6, u6), (1, b6, t6), (0, x5, u5), (1, b5, t5), (0, x4, u4), (1, b4, t4),
         (0, x3, u3), (1, b3, t3), (0, x2, u2), (1, b2, t2), (0, x1, u1), (1, b1, t1),
         (0, x0, u0), (1, b0, t0)] =
        Some (d\<lparr>state := READ_RW, scl := 1, sda := ucast b0\<rparr>,
              [Event t0 ''ADDRESS'',
               DataByte t0 (b6 * 64 + b5 * 32 + b4 * 16 + b3 * 8 + b2 * 4 + b1 * 2 + b0)])
      \<and> b6 * 64 + b5 * 32 + b4 * 16 + b3 * 8 + b2 * 4 + b1 * 2 + b0 \<le> 127)
   \<and> (state d = READ_DATA \<and> pos d = 0 \<and> byteBuffer d = 0 \<longrightarrow>
      decodeLoop d
        [(0, x7, u7), (1, b7, t7), (0, x6, u6), (1, b6, t6), (0, x5, u5), (1, b5, t5),
         (0, x4, u4), (1, b4, t4), (0, x3, u3), (1, b3, t3), (0, x2, u2), (1, b2, t2),
         (0, x1, u1), (1, b1, t1), (0, x0, u0), (1, b0, t0)] =
        Some (d\<lparr>state := READ_ACK, scl := 1, sda := ucast b0\<rparr>,
              [DataByte t0
                 (b7 * 128 + b6 * 64 + b5 * 32 + b4 * 16 + b3 * 8 + b2 * 4 + b1 * 2 + b0),
               Event t0 ''DATA'']))"
proof (intro conjI impI)
  assume d: "state d = READ_ADDR \<and> pos d = 0 \<and> byteBuffer d = 0"
  show "decodeLoop d
        [(0, x6, u6), (1, b6, t6), (0, x5, u5), (1, b5, t5), (0, x4, u4), (1, b4, t4),
         (0, x3, u3), (1, b3, t3), (0, x2, u2), (1, b2, t2), (0, x1, u1), (1, b1, t1),
         (0, x0, u0), (1, b0, t0)] =
        Some (d\<lparr>state := READ_RW, scl := 1, sda := ucast b0\<rparr>,
              [Event t0 ''ADDRESS'',
               DataByte t0 (b6 * 64 + b5 * 32 + b4 * 16 + b3 * 8 + b2 * 4 + b1 * 2 + b0)])"
    using d assms(2-8)
    apply (simp add: handleState_low)
    apply (simp add: handleState_def orShifted_def)
    apply (elim disjE; simp)
    done
  show "b6 * 64 + b5 * 32 + b4 * 16 + b3 * 8 + b2 * 4 + b1 * 2 + b0 \<le> 127"
    using assms(2-8) by (elim insertE emptyE; simp)
next
  assume d: "state d = READ_DATA \<and> pos d = 0 \<and> byteBuffer d = 0"
  show "decodeLoop d
        [(0, x7, u7), (1, b7, t7), (0, x6, u6), (1, b6, t6), (0, x5, u5), (1, b5, t5),
         (0, x4, u4), (1, b4, t4), (0, x3, u3), (1, b3, t3), (0, x2, u2), (1, b2, t2),
         (0, x1, u1), (1, b1, t1), (0, x0, u0), (1, b0, t0)] =
        Some (d\<lparr>state := READ_ACK, scl := 1, sda := ucast b0\<rparr>,
              [DataByte t0
                 (b7 * 128 + b6 * 64 + b5 * 32 + b4 * 16 + b3 * 8 + b2 * 4 + b1 * 2 + b0),
               Event t0 ''DATA''])"
    using d assms
    apply (simp add: handleState_low)
    apply (simp add: handleState_def orShifted_def)
    apply (elim disjE; simp)
    done
qed

text \<open>
  Claim C2, at the address 0x50 and the data byte 0xFF.
\<close>

theorem msb_first_assembly_witness:
  "decodeLoop \<lparr>state = READ_ADDR, scl = 1, sda = 0, pos = 0, byteBuffer = 0\<rparr>
      [(0, 1, 2), (1, 1, 3), (0, 0, 4), (1, 0, 5), (0, 1, 6), (1, 1, 7), (0, 0, 8),
       (1, 0, 9), (0, 0, 10), (1, 0, 11), (0, 0, 12), (1, 0, 13), (0, 0, 14), (1, 0, 15)] =
     Some (\<lparr>state = READ_RW, scl = 1, sda = 0, pos = 0, byteBuffer = 0\<rparr>,
           [Event 15 ''ADDRESS'', DataByte 15 0x50])
   \<and> decodeLoop \<lparr>state = READ_DATA, scl = 1, sda = 0, pos = 0, byteBuffer = 0\<rparr>
      [(0, 1, 20), (1, 1, 21), (0, 1, 22), (1, 1, 23), (0, 1, 24), (1, 1, 25), (0, 1, 26),
       (1, 1, 27), (0, 1, 28), (1, 1, 29), (0, 1, 30), (1, 1, 31), (0, 1, 32), (1, 1, 33),
       (0, 1, 34), (1, 1, 35)] =
     Some (\<lparr>state = READ_ACK, scl = 1, sda = 1, pos = 0, byteBuffer = 0\<rparr>,
           [DataByte 35 0xFF, Event 35 ''DATA''])"
  using msb_first_assembly
      [where d = "\<lparr>state = READ_ADDR, scl = 1, sda = 0, pos = 0, byteBuffer = 0\<rparr>"
         and ?b7.0 = 0 and ?b6.0 = 1 and ?b5.0 = 0 and ?b4.0 = 1 and ?b3.0 = 0 and ?b2.0 = 0
         and ?b1.0 = 0 and ?b0.0 = 0
         and ?x6.0 = 1 and ?x5.0 = 0 and ?x4.0 = 1 and ?x3.0 = 0 and ?x2.0 = 0
         and ?x1.0 = 0 and ?x0.0 = 0
         and ?u6.0 = 2 and ?u5.0 = 4 and ?u4.0 = 6 and ?u3.0 = 8 and ?u2.0 = 10
         and ?u1.0 = 12 and ?u0.0 = 14
         and ?t6.0 = 3 and ?t5.0 = 5 and ?t4.0 = 7 and ?t3.0 = 9 and ?t2.0 = 11
         and ?t1.0 = 13 and ?t0.0 = 15]
    msb_first_assembly
      [where d = "\<lparr>state = READ_DATA, scl = 1, sda = 0, pos = 0, byteBuffer = 0\<rparr>"
         and ?b7.0 = 1 and ?b6.0 = 1 and ?b5.0 = 1 and ?b4.0 = 1 and ?b3.0 = 1 and ?b2.0 = 1
         and ?b1.0 = 1 and ?b0.0 = 1
         and ?x7.0 = 1 and ?x6.0 = 1 and ?x5.0 = 1 and ?x4.0 = 1 and ?x3.0 = 1 and ?x2.0 = 1
         and ?x1.0 = 1 and ?x0.0 = 1
         and ?u7.0 = 20 and ?u6.0 = 22 and ?u5.0 = 24 and ?u4.0 = 26 and ?u3.0 = 28
         and ?u2.0 = 30 and ?u1.0 = 32 and ?u0.0 = 34
         and ?t7.0 = 21 and ?t6.0 = 23 and ?t5.0 = 25 and ?t4.0 = 27 and ?t3.0 = 29
         and ?t2.0 = 31 and ?t1.0 = 33 and ?t0.0 = 35]
  by simp

text \<open>
  Claim C3. A sample with the stored levels at clock 1, data 1 and the new levels at
  clock 1, data 0 emits exactly one event, START when the phase is \<open>IDLE\<close> and
  START(odd) in every other phase, and leaves the decoder in \<open>READ_ADDR\<close> with
  \<^verbatim>\<open>pos\<close> and \<^verbatim>\<open>byteBuffer\<close> at 0. It holds of every decoder value, reachable
  or not.
\<close>

theorem start_condition_tagging:
  assumes "scl d = 1" and "sda d = 1" and "sclValue = 1" and "sdaValue = 0"
  shows "handleState d sclValue sdaValue time =
           Some (d\<lparr>state := READ_ADDR, pos := 0, byteBuffer := 0, scl := 1, sda := 0\<rparr>,
                 [Event time (if state d = IDLE then ''START'' else ''START(odd)'')])"
  using assms by (simp add: handleState_start)

text \<open>
  Claim C3, once from \<open>IDLE\<close> and once in the middle of a data byte.
\<close>

theorem start_condition_tagging_witness:
  "handleState \<lparr>state = IDLE, scl = 1, sda = 1, pos = 9, byteBuffer = 9\<rparr> 1 0 5 =
     Some (\<lparr>state = READ_ADDR, scl = 1, sda = 0, pos = 0, byteBuffer = 0\<rparr>,
           [Event 5 ''START''])
   \<and> handleState \<lparr>state = READ_DATA, scl = 1, sda = 1, pos = 3, byteBuffer = 160\<rparr> 1 0 6 =
     Some (\<lparr>state = READ_ADDR, scl = 1, sda = 0, pos = 0, byteBuffer = 0\<rparr>,
           [Event 6 ''START(odd)''])"
  using start_condition_tagging
      [of "\<lparr>state = IDLE, scl = 1, sda = 1, pos = 9, byteBuffer = 9\<rparr>" 1 0 5]
    start_condition_tagging
      [of "\<lparr>state = READ_DATA, scl = 1, sda = 1, pos = 3, byteBuffer = 160\<rparr>" 1 0 6]
  by simp

text \<open>
  Claim C4, as amended. \<^verbatim>\<open>newDecoder\<close> does not assign \<^verbatim>\<open>pos\<close> and
  \<^verbatim>\<open>byteBuffer\<close>; the START branch is the first to write them. In every decoder
  value reached from creation whose phase is not \<open>IDLE\<close>, or that has emitted a START
  event, \<^verbatim>\<open>pos\<close> is at most 8. From every such value each sample is processed
  (the shift count is never negative), and \<^verbatim>\<open>pos\<close> and \<^verbatim>\<open>byteBuffer\<close> are 0
  after a START condition, after the step from \<open>READ_ACK\<close> to \<open>READ_DATA\<close> and after
  the step from \<open>READ_RW\<close> to \<open>READ_ACK\<close>.
\<close>

theorem bit_position_bounded_after_start:
  assumes "decodeLoop (newDecoder pos0 byteBuffer0) samples = Some (d, out)"
  shows "(state d \<noteq> IDLE \<or> (\<exists>e\<in>set out. isStart e) \<longrightarrow> unat (pos d) \<le> 8)
    \<and> (\<forall>sclValue sdaValue time. \<exists>d' out'.
          handleState d sclValue sdaValue time = Some (d', out')
          \<and> (scl d = 1 \<and> sda d = 1 \<and> sclValue = 1 \<and> sdaValue = 0 \<longrightarrow>
               state d' = READ_ADDR \<and> pos d' = 0 \<and> byteBuffer d' = 0)
          \<and> (state d = READ_ACK \<and> state d' = READ_DATA \<longrightarrow>
               pos d' = 0 \<and> byteBuffer d' = 0)
          \<and> (state d = READ_RW \<and> state d' = READ_ACK \<longrightarrow>
               pos d' = 0 \<and> byteBuffer d' = 0))"
proof (intro conjI allI)
  have "state (newDecoder pos0 byteBuffer0) = IDLE"
    by (simp add: newDecoder_def)
  from decodeLoop_idle_pos [OF this assms]
  show "state d \<noteq> IDLE \<or> (\<exists>e\<in>set out. isStart e) \<longrightarrow> unat (pos d) \<le> 8"
    by auto
next
  fix sclValue sdaValue time
  have inv: "fieldInv d" using assms by (rule reachable_fieldInv)
  then obtain d' out' where step: "handleState d sclValue sdaValue time = Some (d', out')"
    using handleState_fieldInv by blast
  have "scl d = 1 \<and> sda d = 1 \<and> sclValue = 1 \<and> sdaValue = 0 \<longrightarrow>
          state d' = READ_ADDR \<and> pos d' = 0 \<and> byteBuffer d' = 0"
    using step by (auto simp: handleState_start)
  with step handleState_entry [OF inv step]
  show "\<exists>d' out'.
          handleState d sclValue sdaValue time = Some (d', out')
          \<and> (scl d = 1 \<and> sda d = 1 \<and> sclValue = 1 \<and> sdaValue = 0 \<longrightarrow>
               state d' = READ_ADDR \<and> pos d' = 0 \<and> byteBuffer d' = 0)
          \<and> (state d = READ_ACK \<and> state d' = READ_DATA \<longrightarrow>
               pos d' = 0 \<and> byteBuffer d' = 0)
          \<and> (state d = READ_RW \<and> state d' = READ_ACK \<longrightarrow>
               pos d' = 0 \<and> byteBuffer d' = 0)"
    by blast
qed

text \<open>
  Claim C4 as it was stated fails at creation: with 200 in the byte that
  \<^verbatim>\<open>malloc\<close> hands out for \<^verbatim>\<open>pos\<close>, the decoder reached by the empty sample
  sequence has a bit position above 8.
\<close>

theorem bit_position_counterexample:
  "decodeLoop (newDecoder 200 0) [] = Some (newDecoder 200 0, [])
   \<and> \<not> unat (pos (newDecoder 200 0)) \<le> 8"
  by (simp add: newDecoder_def)

text \<open>
  Claim C4 as amended, after a START and the seven address bits: the decoder is in
  \<open>READ_RW\<close>, and the next rising clock takes it to \<open>READ_ACK\<close> with both fields
  at 0.
\<close>

theorem bit_position_bounded_after_start_witness:
  "decodeLoop (newDecoder 200 7)
       [(1, 0, 1),
        (0, 1, 2), (1, 1, 3), (0, 0, 4), (1, 0, 5), (0, 1, 6), (1, 1, 7), (0, 0, 8),
        (1, 0, 9), (0, 0, 10), (1, 0, 11), (0, 0, 12), (1, 0, 13), (0, 0, 14), (1, 0, 15),
        (0, 0, 16)] =
     Some (\<lparr>state = READ_RW, scl = 0, sda = 0, pos = 0, byteBuffer = 0\<rparr>,
           [Event 1 ''START'', Event 15 ''ADDRESS'', DataByte 15 0x50])
   \<and> unat (pos \<lparr>state = READ_RW, scl = 0, sda = 0, pos = 0, byteBuffer = 0\<rparr>) \<le> 8
   \<and> (\<exists>d' out'.
        handleState \<lparr>state = READ_RW, scl = 0, sda = 0, pos = 0, byteBuffer = 0\<rparr> 1 0 17 =
          Some (d', out')
        \<and> state d' = READ_ACK \<and> pos d' = 0 \<and> byteBuffer d' = 0)"
proof -
  have run: "decodeLoop (newDecoder 200 7)
       [(1, 0, 1),
        (0, 1, 2), (1, 1, 3), (0, 0, 4), (1, 0, 5), (0, 1, 6), (1, 1, 7), (0, 0, 8),
        (1, 0, 9), (0, 0, 10), (1, 0, 11), (0, 0, 12), (1, 0, 13), (0, 0, 14), (1, 0, 15),
        (0, 0, 16)] =
     Some (\<lparr>state = READ_RW, scl = 0, sda = 0, pos = 0, byteBuffer = 0\<rparr>,
           [Event 1 ''START'', Event 15 ''ADDRESS'', DataByte 15 0x50])"
    by (simp add: newDecoder_def handleState_low) (simp add: handleState_def orShifted_def)
  have step: "handleState \<lparr>state = READ_RW, scl = 0, sda = 0, pos = 0, byteBuffer = 0\<rparr>
       1 0 17 =
     Some (\<lparr>state = READ_ACK, scl = 1, sda = 0, pos = 0, byteBuffer = 0\<rparr>, [Event 17 ''WRITE''])"
    by (simp add: handleState_def)
  from bit_position_bounded_after_start [OF run]
  have bound: "unat (pos \<lparr>state = READ_RW, scl = 0, sda = 0, pos = 0, byteBuffer = 0\<rparr>) \<le> 8"
    and entry: "\<exists>d' out'.
        handleState \<lparr>state = READ_RW, scl = 0, sda = 0, pos = 0, byteBuffer = 0\<rparr> 1 0 17 =
          Some (d', out')
        \<and> (state \<lparr>state = READ_RW, scl = 0, sda = 0, pos = 0, byteBuffer = 0\<rparr> = READ_RW
             \<and> state d' = READ_ACK \<longrightarrow> pos d' = 0 \<and> byteBuffer d' = 0)"
    by simp_all
  from entry step have "\<exists>d' out'.
        handleState \<lparr>state = READ_RW, scl = 0, sda = 0, pos = 0, byteBuffer = 0\<rparr> 1 0 17 =
          Some (d', out')
        \<and> state d' = READ_ACK \<and> pos d' = 0 \<and> byteBuffer d' = 0"
    by auto
  with run bound show ?thesis by blast
qed

text \<open>
  Claim C5. A bit-sample edge in \<open>IDLE\<close>, reached from creation by a falling
  clock and a falling data line: the sample has clock 1 and data 0 while the stored
  levels are clock 0 and data 0. The phase, \<^verbatim>\<open>pos\<close> and \<^verbatim>\<open>byteBuffer\<close> are
  unchanged and the two calls on \<^verbatim>\<open>io\<close> are made; but the last two arguments of
  \<^verbatim>\<open>printf\<close>, which its format announces as \<^verbatim>\<open>scl\<close> and \<^verbatim>\<open>sda\<close>, are the
  stored levels \<^verbatim>\<open>d->scl\<close> and \<^verbatim>\<open>d->sda\<close> once more: the line reads
  \<^verbatim>\<open>scl=0\<close> although the new clock level is 1.
\<close>

theorem diagnostic_repeats_last_levels:
  "decodeLoop (newDecoder pos0 byteBuffer0) [(0, 1, 1), (0, 0, 2), (1, 0, 3)] =
     Some (\<lparr>state = IDLE, scl = 1, sda = 0, pos = pos0, byteBuffer = byteBuffer0\<rparr>,
           [Print ''There's a state here we haven't implemented yet'',
            Printf ''  state=%d, lastSCL=%d, lastSDA=%d, scl=%d, sda=%d'' [0, 0, 0, 0, 0]])"
  by (simp add: newDecoder_def handleState_low) (simp add: handleState_def)

text \<open>
  Claim C6. A sample whose two levels equal the stored ones returns the decoder as
  it is, with no emission. And from every decoder value reached from creation, a
  sample with binary levels is processed, and the same sample fed again to the result
  changes nothing and emits nothing.
\<close>

theorem unchanged_sample_is_noop:
  "(ucast (scl d) = sclValue \<and> ucast (sda d) = sdaValue \<longrightarrow>
      handleState d sclValue sdaValue time = Some (d, []))
   \<and> (decodeLoop (newDecoder pos0 byteBuffer0) samples = Some (d, out)
        \<and> sclValue \<in> {0, 1} \<and> sdaValue \<in> {0, 1} \<longrightarrow>
      (\<exists>d1 out1. handleState d sclValue sdaValue time = Some (d1, out1)
         \<and> handleState d1 sclValue sdaValue time' = Some (d1, [])))"
proof (intro conjI impI)
  assume "ucast (scl d) = sclValue \<and> ucast (sda d) = sdaValue"
  then show "handleState d sclValue sdaValue time = Some (d, [])"
    by (simp add: handleState_nochange)
next
  assume a: "decodeLoop (newDecoder pos0 byteBuffer0) samples = Some (d, out)
    \<and> sclValue \<in> {0, 1} \<and> sdaValue \<in> {0, 1}"
  then have "fieldInv d" using reachable_fieldInv by blast
  then obtain d1 out1 where step: "handleState d sclValue sdaValue time = Some (d1, out1)"
    using handleState_fieldInv by blast
  then have "scl d1 = ucast sclValue" and "sda d1 = ucast sdaValue"
    using handleState_latches by blast+
  with a have "ucast (scl d1) = sclValue" and "ucast (sda d1) = sdaValue"
    by auto
  then have "handleState d1 sclValue sdaValue time' = Some (d1, [])"
    by (rule handleState_nochange)
  with step show "\<exists>d1 out1. handleState d sclValue sdaValue time = Some (d1, out1)
         \<and> handleState d1 sclValue sdaValue time' = Some (d1, [])"
    by blast
qed

text \<open>
  Claim C6, at a repeated sample in the middle of a data byte, and at the decoder
  reached from creation by one falling clock.
\<close>

theorem unchanged_sample_is_noop_witness:
  "handleState \<lparr>state = READ_DATA, scl = 1, sda = 1, pos = 3, byteBuffer = 160\<rparr> 1 1 9 =
     Some (\<lparr>state = READ_DATA, scl = 1, sda = 1, pos = 3, byteBuffer = 160\<rparr>, [])
   \<and> decodeLoop (newDecoder 0 0) [(0, 1, 1)] =
     Some (\<lparr>state = IDLE, scl = 0, sda = 1, pos = 0, byteBuffer = 0\<rparr>, [])
   \<and> (\<exists>d1 out1.
        handleState \<lparr>state = IDLE, scl = 0, sda = 1, pos = 0, byteBuffer = 0\<rparr> 0 0 2 =
          Some (d1, out1)
        \<and> handleState d1 0 0 3 = Some (d1, []))"
proof -
  have run: "decodeLoop (newDecoder 0 0) [(0, 1, 1)] =
     Some (\<lparr>state = IDLE, scl = 0, sda = 1, pos = 0, byteBuffer = 0\<rparr>, [])"
    by (simp add: newDecoder_def handleState_low)
  from unchanged_sample_is_noop
      [where d = "\<lparr>state = READ_DATA, scl = 1, sda = 1, pos = 3, byteBuffer = 160\<rparr>"
         and sclValue = 1 and sdaValue = 1 and time = 9]
  have first: "handleState \<lparr>state = READ_DATA, scl = 1, sda = 1, pos = 3, byteBuffer = 160\<rparr>
       1 1 9 =
     Some (\<lparr>state = READ_DATA, scl = 1, sda = 1, pos = 3, byteBuffer = 160\<rparr>, [])"
    by simp
  from unchanged_sample_is_noop
      [where d = "\<lparr>state = IDLE, scl = 0, sda = 1, pos = 0, byteBuffer = 0\<rparr>"
         and ?pos0.0 = 0 and ?byteBuffer0.0 = 0 and samples = "[(0, 1, 1)]" and out = "[]"
         and sclValue = 0 and sdaValue = 0 and time = 2 and time' = 3] run
  have "\<exists>d1 out1.
        handleState \<lparr>state = IDLE, scl = 0, sda = 1, pos = 0, byteBuffer = 0\<rparr> 0 0 2 =
          Some (d1, out1)
        \<and> handleState d1 0 0 3 = Some (d1, [])"
    by simp
  with first run show ?thesis by blast
qed

text \<open>
  Claim C7. A sample with the clock at 0 that is neither a repetition of the stored
  levels nor a falling clock emits nothing and changes only the stored levels, which
  become the new ones, in every phase.
\<close>

theorem clock_low_data_change_masked:
  assumes "sclValue = 0"
    and "\<not> (ucast (scl d) = sclValue \<and> ucast (sda d) = sdaValue)"
    and "\<not> (scl d = 1 \<and> sclValue = 0)"
  shows "handleState d sclValue sdaValue time =
           Some (d\<lparr>scl := 0, sda := ucast sdaValue\<rparr>, [])"
  using assms by (simp add: handleState_low)

text \<open>
  Claim C7, in the middle of a data byte.
\<close>

theorem clock_low_data_change_masked_witness:
  "handleState \<lparr>state = READ_DATA, scl = 0, sda = 1, pos = 3, byteBuffer = 160\<rparr> 0 0 8 =
     Some (\<lparr>state = READ_DATA, scl = 0, sda = 0, pos = 3, byteBuffer = 160\<rparr>, [])"
  using clock_low_data_change_masked
      [of 0 "\<lparr>state = READ_DATA, scl = 0, sda = 1, pos = 3, byteBuffer = 160\<rparr>" 0 8]
  by simp

text \<open>
  Claim C8. A sample with the stored levels at clock 1, data 0 and the new levels at
  clock 1, data 1 emits exactly one STOP event and sets the phase to \<open>IDLE\<close>, from
  every phase, \<open>IDLE\<close> included.
\<close>

theorem stop_condition_accepted:
  assumes "scl d = 1" and "sda d = 0" and "sclValue = 1" and "sdaValue = 1"
  shows "handleState d sclValue sdaValue time =
           Some (d\<lparr>state := IDLE, scl := 1, sda := 1\<rparr>, [Event time ''STOP''])"
  using assms by (simp add: handleState_stop)

text \<open>
  Claim C8, from \<open>IDLE\<close> and from \<open>READ_ACK\<close>.
\<close>

theorem stop_condition_accepted_witness:
  "handleState \<lparr>state = IDLE, scl = 1, sda = 0, pos = 200, byteBuffer = 3\<rparr> 1 1 4 =
     Some (\<lparr>state = IDLE, scl = 1, sda = 1, pos = 200, byteBuffer = 3\<rparr>, [Event 4 ''STOP''])
   \<and> handleState \<lparr>state = READ_ACK, scl = 1, sda = 0, pos = 0, byteBuffer = 0\<rparr> 1 1 4 =
     Some (\<lparr>state = IDLE, scl = 1, sda = 1, pos = 0, byteBuffer = 0\<rparr>, [Event 4 ''STOP''])"
  using stop_condition_accepted
      [of "\<lparr>state = IDLE, scl = 1, sda = 0, pos = 200, byteBuffer = 3\<rparr>" 1 1 4]
    stop_condition_accepted
      [of "\<lparr>state = READ_ACK, scl = 1, sda = 0, pos = 0, byteBuffer = 0\<rparr>" 1 1 4]
  by simp

text \<open>
  Claim C9. Every sample sequence is decoded, from creation with the stored levels at
  clock 1 and data 1. In its trace every byte of the data channel and every ADDRESS,
  WRITE, READ, ACK, NACK or DATA event comes after a START or START(odd) event. And
  when the sequence holds no START condition, the trace holds nothing but STOP events
  and lines of the diagnostic: no byte, and no other event.
\<close>

theorem transaction_output_follows_start:
  "\<exists>d out. decodeLoop (newDecoder pos0 byteBuffer0) samples = Some (d, out)
     \<and> (\<forall>pre e post. out = pre @ e # post \<and> needsStart e \<longrightarrow> (\<exists>s\<in>set pre. isStart s))
     \<and> (\<not> hasStartCondition 1 1 samples \<longrightarrow> (\<forall>e\<in>set out. outsideTransaction e))"
proof -
  obtain d out where run: "decodeLoop (newDecoder pos0 byteBuffer0) samples = Some (d, out)"
    using decodeLoop_fieldInv [OF newDecoder_fieldInv] by blast
  have idle: "state (newDecoder pos0 byteBuffer0) = IDLE"
    and levels: "scl (newDecoder pos0 byteBuffer0) = 1" "sda (newDecoder pos0 byteBuffer0) = 1"
    by (simp_all add: newDecoder_def)
  from idle run have g: "startGuarded out"
    by (rule decodeLoop_idle_startGuarded)
  have "\<forall>pre e post. out = pre @ e # post \<and> needsStart e \<longrightarrow> (\<exists>s\<in>set pre. isStart s)"
    using startGuarded_preceded [OF g] by blast
  moreover have "\<not> hasStartCondition 1 1 samples \<longrightarrow> (\<forall>e\<in>set out. outsideTransaction e)"
    using decodeLoop_without_start [OF idle _ run] levels by (simp add: list_all_iff)
  ultimately show ?thesis using run by blast
qed

text \<open>
  Claim C9, at a START followed by the address 0x50, and at a sequence without a
  START condition that brings a bit-sample edge and a STOP condition in \<open>IDLE\<close>.
\<close>

theorem transaction_output_follows_start_witness:
  "decodeLoop (newDecoder 0 0)
       [(1, 0, 1),
        (0, 1, 2), (1, 1, 3), (0, 0, 4), (1, 0, 5), (0, 1, 6), (1, 1, 7), (0, 0, 8),
        (1, 0, 9), (0, 0, 10), (1, 0, 11), (0, 0, 12), (1, 0, 13), (0, 0, 14), (1, 0, 15)] =
     Some (\<lparr>state = READ_RW, scl = 1, sda = 0, pos = 0, byteBuffer = 0\<rparr>,
           [Event 1 ''START'', Event 15 ''ADDRESS''] @ DataByte 15 0x50 # [])
   \<and> needsStart (DataByte 15 0x50)
   \<and> (\<exists>s\<in>set [Event 1 ''START'', Event 15 ''ADDRESS'']. isStart s)
   \<and> \<not> hasStartCondition 1 1 [(0, 1, 1), (0, 0, 2), (1, 0, 3), (1, 1, 4)]
   \<and> decodeLoop (newDecoder 0 0) [(0, 1, 1), (0, 0, 2), (1, 0, 3), (1, 1, 4)] =
     Some (\<lparr>state = IDLE, scl = 1, sda = 1, pos = 0, byteBuffer = 0\<rparr>,
           [Print ''There's a state here we haven't implemented yet'',
            Printf ''  state=%d, lastSCL=%d, lastSDA=%d, scl=%d, sda=%d'' [0, 0, 0, 0, 0],
            Event 4 ''STOP''])
   \<and> list_all outsideTransaction
        [Print ''There's a state here we haven't implemented yet'',
         Printf ''  state=%d, lastSCL=%d, lastSDA=%d, scl=%d, sda=%d'' [0, 0, 0, 0, 0],
         Event 4 ''STOP'']"
proof -
  have run1: "decodeLoop (newDecoder 0 0)
       [(1, 0, 1),
        (0, 1, 2), (1, 1, 3), (0, 0, 4), (1, 0, 5), (0, 1, 6), (1, 1, 7), (0, 0, 8),
        (1, 0, 9), (0, 0, 10), (1, 0, 11), (0, 0, 12), (1, 0, 13), (0, 0, 14), (1, 0, 15)] =
     Some (\<lparr>state = READ_RW, scl = 1, sda = 0, pos = 0, byteBuffer = 0\<rparr>,
           [Event 1 ''START'', Event 15 ''ADDRESS''] @ DataByte 15 0x50 # [])"
    by (simp add: newDecoder_def handleState_low) (simp add: handleState_def orShifted_def)
  have run2: "decodeLoop (newDecoder 0 0) [(0, 1, 1), (0, 0, 2), (1, 0, 3), (1, 1, 4)] =
     Some (\<lparr>state = IDLE, scl = 1, sda = 1, pos = 0, byteBuffer = 0\<rparr>,
           [Print ''There's a state here we haven't implemented yet'',
            Printf ''  state=%d, lastSCL=%d, lastSDA=%d, scl=%d, sda=%d'' [0, 0, 0, 0, 0],
            Event 4 ''STOP''])"
    by (simp add: newDecoder_def handleState_low) (simp add: handleState_def)
  have needs: "needsStart (DataByte 15 0x50)"
    by simp
  from transaction_output_follows_start [of 0 0
       "[(1, 0, 1),
        (0, 1, 2), (1, 1, 3), (0, 0, 4), (1, 0, 5), (0, 1, 6), (1, 1, 7), (0, 0, 8),
        (1, 0, 9), (0, 0, 10), (1, 0, 11), (0, 0, 12), (1, 0, 13), (0, 0, 14), (1, 0, 15)]"]
  have "\<forall>pre e post.
          [Event 1 ''START'', Event 15 ''ADDRESS''] @ DataByte 15 0x50 # [] = pre @ e # post
            \<and> needsStart e
          \<longrightarrow> (\<exists>s\<in>set pre. isStart s)"
    unfolding run1 by blast
  with needs have w1: "\<exists>s\<in>set [Event 1 ''START'', Event 15 ''ADDRESS'']. isStart s"
    by blast
  have nostart: "\<not> hasStartCondition 1 1 [(0, 1, 1), (0, 0, 2), (1, 0, 3), (1, 1, 4)]"
    by simp
  from transaction_output_follows_start
    [of 0 0 "[(0, 1, 1), (0, 0, 2), (1, 0, 3), (1, 1, 4)]"] nostart
  have "\<forall>e\<in>set [Print ''There's a state here we haven't implemented yet'',
         Printf ''  state=%d, lastSCL=%d, lastSDA=%d, scl=%d, sda=%d'' [0, 0, 0, 0, 0],
         Event 4 ''STOP'']. outsideTransaction e"
    unfolding run2 by blast
  then have w2: "list_all outsideTransaction
        [Print ''There's a state here we haven't implemented yet'',
         Printf ''  state=%d, lastSCL=%d, lastSDA=%d, scl=%d, sda=%d'' [0, 0, 0, 0, 0],
         Event 4 ''STOP'']"
    by (simp only: list_all_iff)
  from run1 needs w1 nostart run2 w2 show ?thesis by blast
qed

text \<open>
  Claim C10. A call that writes a byte to the data channel writes exactly one, and
  exactly one event with it, both with the time stamp of the call: either the call
  completes the address (\<^verbatim>\<open>pos\<close> was 6 in \<open>READ_ADDR\<close>) and the event is ADDRESS,
  or it completes a data byte (\<^verbatim>\<open>pos\<close> was 7 in \<open>READ_DATA\<close>) and the event is
  DATA.
\<close>

theorem data_byte_paired_with_event:
  assumes "handleState d sclValue sdaValue time = Some (d', out)"
    and "DataByte t v \<in> set out"
  shows "t = time \<and>
    (state d = READ_ADDR \<and> pos d = 6 \<and> state d' = READ_RW
       \<and> out = [Event time ''ADDRESS'', DataByte time v]
     \<or> state d = READ_DATA \<and> pos d = 7 \<and> state d' = READ_ACK
       \<and> out = [DataByte time v, Event time ''DATA''])"
proof (cases rule: sample_cases [where d = d and sclValue = sclValue and sdaValue = sdaValue])
  case nochange
  with assms show ?thesis by (auto simp: handleState_nochange)
next
  case low
  with assms show ?thesis by (auto simp: handleState_low)
next
  case start
  with assms show ?thesis by (auto simp: handleState_start)
next
  case stop
  with assms show ?thesis by (auto simp: handleState_stop)
next
  case addr
  with assms show ?thesis
    by (auto simp: handleState_edge_addr orShifted_def pos_succ_eq_7
        split: option.splits if_splits)
next
  case rw
  with assms show ?thesis by (auto simp: handleState_edge_rw)
next
  case ack
  with assms show ?thesis by (auto simp: handleState_edge_ack)
next
  case data
  with assms show ?thesis
    by (auto simp: handleState_edge_data orShifted_def pos_succ_eq_8
        split: option.splits if_splits)
next
  case other
  with assms show ?thesis by (auto simp: handleState_edge_other)
qed

text \<open>
  Claim C10, at the seventh address bit of 0x50.
\<close>

theorem data_byte_paired_with_event_witness:
  "handleState \<lparr>state = READ_ADDR, scl = 0, sda = 0, pos = 6, byteBuffer = 0x50\<rparr> 1 0 15 =
     Some (\<lparr>state = READ_RW, scl = 1, sda = 0, pos = 0, byteBuffer = 0\<rparr>,
           [Event 15 ''ADDRESS'', DataByte 15 0x50])
   \<and> DataByte 15 0x50 \<in> set [Event 15 ''ADDRESS'', DataByte 15 0x50]
   \<and> [Event 15 ''ADDRESS'', DataByte (15 :: timestamp) 0x50] \<noteq> [DataByte 15 0x50, Event 15 ''DATA'']"
proof -
  have step: "handleState \<lparr>state = READ_ADDR, scl = 0, sda = 0, pos = 6, byteBuffer = 0x50\<rparr>
       1 0 15 =
     Some (\<lparr>state = READ_RW, scl = 1, sda = 0, pos = 0, byteBuffer = 0\<rparr>,
           [Event 15 ''ADDRESS'', DataByte 15 0x50])"
    by (simp add: handleState_def orShifted_def)
  have mem: "DataByte 15 0x50 \<in> set [Event 15 ''ADDRESS'', DataByte 15 0x50]"
    by simp
  from data_byte_paired_with_event [OF step mem] step mem show ?thesis
    by simp
qed

end
